theory Spec2Isabelle
  imports Complex_Main
begin

section \<open>Numeric model\<close>

text \<open>
  The programs compute with single-precision \<^verbatim>\<open>float\<close> values. They are modelled
  here as real numbers: every operation is exact, and rounding, infinities and NaN are
  not represented. \<^verbatim>\<open>int\<close> loop counters and grid sizes are modelled as \<open>int\<close>.
\<close>

record vec3 =
  c0 :: real
  c1 :: real
  c2 :: real

text \<open>\<^verbatim>\<open>std::numeric_limits<float>::max()\<close> and \<^verbatim>\<open>lowest()\<close>.\<close>

definition float_max :: real where
  "float_max = (2 ^ 24 - 1) * 2 ^ 104"

definition lowest :: real where
  "lowest = - float_max"

text \<open>
  The implicit conversion of a \<^verbatim>\<open>float\<close> to \<^verbatim>\<open>int\<close> truncates toward zero. A value
  outside the range of \<^verbatim>\<open>int\<close>, for which the conversion is undefined, is outside
  this model.
\<close>

definition float_to_int :: "real \<Rightarrow> int" where
  "float_to_int r = (if 0 \<le> r then \<lfloor>r\<rfloor> else \<lceil>r\<rceil>)"

section \<open>Guidance volume sampler\<close>

subsection \<open>Data\<close>

record arguments =
  resolution :: real
  max_distance :: real
  min_altitude :: real
  max_altitude :: real

record aabb =
  aabb_min :: vec3
  aabb_max :: vec3

datatype error = AssertionFailed | OutOfBounds

text \<open>
  \<^verbatim>\<open>mve::FloatImage\<close> with one channel: a row-major buffer, \<^verbatim>\<open>at(x, y, 0)\<close> reads
  cell \<open>y * width + x\<close> and \<^verbatim>\<open>at(i)\<close> reads cell \<open>i\<close>.
\<close>

record float_image =
  img_width :: int
  img_height :: int
  img_data :: "real list"

definition image_create :: "int \<Rightarrow> int \<Rightarrow> float_image" where
  "image_create w h = \<lparr>img_width = w, img_height = h, img_data = replicate (nat (w * h)) 0\<rparr>"

definition image_fill :: "real \<Rightarrow> float_image \<Rightarrow> float_image" where
  "image_fill v im = im\<lparr>img_data := map (\<lambda>_. v) (img_data im)\<rparr>"

definition cell_index :: "float_image \<Rightarrow> int \<Rightarrow> int \<Rightarrow> nat" where
  "cell_index im x y = nat (y * img_width im + x)"

definition image_at :: "float_image \<Rightarrow> int \<Rightarrow> int \<Rightarrow> real" where
  "image_at im x y = img_data im ! cell_index im x y"

definition image_set :: "float_image \<Rightarrow> int \<Rightarrow> int \<Rightarrow> real \<Rightarrow> float_image" where
  "image_set im x y v = im\<lparr>img_data := (img_data im)[cell_index im x y := v]\<rparr>"

subsection \<open>Grid dimensions\<close>

definition grid_width :: "arguments \<Rightarrow> aabb \<Rightarrow> int" where
  "grid_width args bb =
     float_to_int ((c0 (aabb_max bb) - c0 (aabb_min bb)) / resolution args + 1)"

definition grid_height :: "arguments \<Rightarrow> aabb \<Rightarrow> int" where
  "grid_height args bb =
     float_to_int ((c1 (aabb_max bb) - c1 (aabb_min bb)) / resolution args + 1)"

definition grid_depth :: "arguments \<Rightarrow> int" where
  "grid_depth args = float_to_int (max_altitude args / resolution args + 1)"

text \<open>The defaults that \<^verbatim>\<open>parse_args\<close> sets before it reads the options.\<close>

definition default_arguments :: arguments where
  "default_arguments =
     \<lparr>resolution = 1, max_distance = 80, min_altitude = 0, max_altitude = 100\<rparr>"

subsection \<open>Bounding box\<close>

text \<open>
  Modelled from the spec: \<^verbatim>\<open>acc::calculate_aabb\<close>, \<^verbatim>\<open>acc::valid\<close> and
  \<^verbatim>\<open>acc::volume\<close> belong to a library that is not among the sources. The spec
  describes them as the axis-aligned bounding box of the mesh vertices, the invariant
  \<open>min[i] \<le> max[i]\<close> for all axes, and the volume of the box. The box of no vertex at
  all is the inverted box, which is not valid.
\<close>

definition aabb_extend :: "vec3 \<Rightarrow> aabb \<Rightarrow> aabb" where
  "aabb_extend v bb =
     \<lparr>aabb_min = \<lparr>c0 = min (c0 (aabb_min bb)) (c0 v),
                  c1 = min (c1 (aabb_min bb)) (c1 v),
                  c2 = min (c2 (aabb_min bb)) (c2 v)\<rparr>,
      aabb_max = \<lparr>c0 = max (c0 (aabb_max bb)) (c0 v),
                  c1 = max (c1 (aabb_max bb)) (c1 v),
                  c2 = max (c2 (aabb_max bb)) (c2 v)\<rparr>\<rparr>"

definition empty_aabb :: aabb where
  "empty_aabb =
     \<lparr>aabb_min = \<lparr>c0 = float_max, c1 = float_max, c2 = float_max\<rparr>,
      aabb_max = \<lparr>c0 = lowest, c1 = lowest, c2 = lowest\<rparr>\<rparr>"

definition calculate_aabb :: "vec3 list \<Rightarrow> aabb" where
  "calculate_aabb verts = fold aabb_extend verts empty_aabb"

definition valid :: "aabb \<Rightarrow> bool" where
  "valid bb \<longleftrightarrow>
     c0 (aabb_min bb) \<le> c0 (aabb_max bb) \<and>
     c1 (aabb_min bb) \<le> c1 (aabb_max bb) \<and>
     c2 (aabb_min bb) \<le> c2 (aabb_max bb)"

definition volume :: "aabb \<Rightarrow> real" where
  "volume bb =
     (c0 (aabb_max bb) - c0 (aabb_min bb)) *
     (c1 (aabb_max bb) - c1 (aabb_min bb)) *
     (c2 (aabb_max bb) - c2 (aabb_min bb))"

subsection \<open>Height map\<close>

text \<open>
  One iteration of the rasterization loop. Both \<^verbatim>\<open>assert\<close>s are branches of the model:
  a failed assertion aborts the program. A cell keeps its value when that is strictly
  greater than the vertex height, and takes the vertex height otherwise.
\<close>

definition vertex_cell_x :: "arguments \<Rightarrow> aabb \<Rightarrow> vec3 \<Rightarrow> int" where
  "vertex_cell_x args bb vertex =
     float_to_int ((c0 vertex - c0 (aabb_min bb)) / resolution args)"

definition vertex_cell_y :: "arguments \<Rightarrow> aabb \<Rightarrow> vec3 \<Rightarrow> int" where
  "vertex_cell_y args bb vertex =
     float_to_int ((c1 vertex - c1 (aabb_min bb)) / resolution args)"

definition splat ::
  "arguments \<Rightarrow> aabb \<Rightarrow> int \<Rightarrow> int \<Rightarrow> vec3 \<Rightarrow> float_image \<Rightarrow> error + float_image" where
  "splat args bb width height vertex hmap =
     (let x = vertex_cell_x args bb vertex in
      if \<not> (0 \<le> x \<and> x < width) then Inl AssertionFailed
      else
        let y = vertex_cell_y args bb vertex in
        if \<not> (0 \<le> y \<and> y < height) then Inl AssertionFailed
        else
          let h = c2 vertex; z = image_at hmap x y in
          if z > h then Inr hmap else Inr (image_set hmap x y h))"

fun rasterize ::
  "arguments \<Rightarrow> aabb \<Rightarrow> int \<Rightarrow> int \<Rightarrow> vec3 list \<Rightarrow> float_image \<Rightarrow> error + float_image" where
  "rasterize args bb width height [] hmap = Inr hmap"
| "rasterize args bb width height (vertex # verts) hmap =
     (case splat args bb width height vertex hmap of
        Inl e \<Rightarrow> Inl e
      | Inr hmap' \<Rightarrow> rasterize args bb width height verts hmap')"

text \<open>
  Ground level: the minimum over the cells that differ from the sentinel, starting
  from \<^verbatim>\<open>std::numeric_limits<float>::max()\<close>. The reduction is a minimum, so the
  order in which the parallel loop visits the cells does not matter.
\<close>

definition estimate_ground_level :: "float_image \<Rightarrow> real" where
  "estimate_ground_level hmap =
     fold (\<lambda>h ground_level. if h \<noteq> lowest \<and> h < ground_level then h else ground_level)
          (img_data hmap) float_max"

definition normalize :: "real \<Rightarrow> float_image \<Rightarrow> float_image" where
  "normalize ground_level hmap =
     hmap\<lparr>img_data := map (\<lambda>h. if h \<noteq> lowest then h - ground_level else 0) (img_data hmap)\<rparr>"

subsection \<open>Sample enumeration\<close>

text \<open>
  The innermost loop of the enumeration, for one footprint cell \<open>(x, y)\<close>: layer \<open>z\<close> is
  skipped when \<^verbatim>\<open>pz < fz\<close> and appended otherwise. The loop also computes \<^verbatim>\<open>px\<close> and
  \<^verbatim>\<open>py\<close> and never uses them. The positions are stored as unsigned 32-bit triples;
  the loop counters are never negative, so the conversion keeps their values.
\<close>

definition world_height :: "arguments \<Rightarrow> real \<Rightarrow> int \<Rightarrow> real" where
  "world_height args ground_level z = ground_level + real_of_int z * resolution args"

definition min_admissible :: "arguments \<Rightarrow> float_image \<Rightarrow> int \<Rightarrow> int \<Rightarrow> real" where
  "min_admissible args hmap x y = max (image_at hmap x y) (min_altitude args)"

definition column_samples ::
  "arguments \<Rightarrow> float_image \<Rightarrow> real \<Rightarrow> int \<Rightarrow> int \<Rightarrow> int \<Rightarrow> (int \<times> int \<times> int) list" where
  "column_samples args hmap ground_level depth x y =
     (let fz = min_admissible args hmap x y
      in map (\<lambda>z. (x, y, z))
             (filter (\<lambda>z. \<not> world_height args ground_level z < fz) [0 .. depth - 1]))"

definition sample_positions ::
  "arguments \<Rightarrow> float_image \<Rightarrow> real \<Rightarrow> int \<Rightarrow> int \<Rightarrow> int \<Rightarrow> (int \<times> int \<times> int) list" where
  "sample_positions args hmap ground_level width height depth =
     concat (map (\<lambda>y. concat (map (\<lambda>x. column_samples args hmap ground_level depth x y)
                                   [0 .. width - 1]))
                 [0 .. height - 1])"

text \<open>
  Modelled from the spec: the class \<^verbatim>\<open>Volume\<close> is not among the sources. The spec
  describes it as a grid of voxels in which the images are created lazily, one per
  sampled voxel; it is a partial map from voxels to images, empty when created.

  The sampling loop stores one histogram image per sample position into the volume and
  touches no other voxel. The image contents come from the device kernels, which are
  not among the sources either: \<open>render\<close> stands for them.
\<close>

definition fill_volume ::
  "((int \<times> int \<times> int) \<Rightarrow> 'img) \<Rightarrow> (int \<times> int \<times> int) list \<Rightarrow> ((int \<times> int \<times> int) \<rightharpoonup> 'img)" where
  "fill_volume render samples = fold (\<lambda>p vol. vol(p \<mapsto> render p)) samples Map.empty"

subsection \<open>Notions used to state the properties\<close>

text \<open>The heights of the vertices that the rasterization maps to cell \<open>(x, y)\<close>.\<close>

definition cell_heights :: "arguments \<Rightarrow> aabb \<Rightarrow> vec3 list \<Rightarrow> int \<Rightarrow> int \<Rightarrow> real list" where
  "cell_heights args bb verts x y =
     map c2 (filter (\<lambda>v. vertex_cell_x args bb v = x \<and> vertex_cell_y args bb v = y) verts)"

text \<open>An image whose buffer has the size of its dimensions.\<close>

definition wf_image :: "int \<Rightarrow> int \<Rightarrow> float_image \<Rightarrow> bool" where
  "wf_image w h im \<longleftrightarrow>
     img_width im = w \<and> img_height im = h \<and> length (img_data im) = nat (w * h)"

text \<open>A height map that holds the same height in every cell.\<close>

definition flat_image :: "int \<Rightarrow> int \<Rightarrow> real \<Rightarrow> float_image" where
  "flat_image w h v = image_fill v (image_create w h)"

subsection \<open>The sampler's main function\<close>

text \<open>
  The grid allocations are recorded in the order in which the program performs them, so
  that a run that aborts shows what it had allocated before.
\<close>

datatype alloc = HeightMapAlloc int int | VolumeAlloc int int int

record 'img sampler_result =
  res_hmap :: float_image
  res_ground_level :: real
  res_samples :: "(int \<times> int \<times> int) list"
  res_volume :: "(int \<times> int \<times> int) \<rightharpoonup> 'img"

definition sampler_main ::
  "((int \<times> int \<times> int) \<Rightarrow> 'img) \<Rightarrow> arguments \<Rightarrow> vec3 list
     \<Rightarrow> alloc list \<times> (error + 'img sampler_result)" where
  "sampler_main render args verts =
     (let bb = calculate_aabb verts in
      if \<not> (valid bb \<and> volume bb > 0) then ([], Inl AssertionFailed)
      else
        let width = grid_width args bb;
            height = grid_height args bb;
            depth = grid_depth args;
            hmap = image_fill lowest (image_create width height)
        in case rasterize args bb width height verts hmap of
             Inl e \<Rightarrow> ([HeightMapAlloc width height], Inl e)
           | Inr hmap' \<Rightarrow>
               let ground_level = estimate_ground_level hmap';
                   hmap'' = normalize ground_level hmap';
                   samples = sample_positions args hmap'' ground_level width height depth
               in ([HeightMapAlloc width height, VolumeAlloc width height depth],
                   Inr \<lparr>res_hmap = hmap'', res_ground_level = ground_level,
                        res_samples = samples, res_volume = fill_volume render samples\<rparr>))"

subsection \<open>Example inputs\<close>

definition slab_mesh :: "vec3 list" where
  "slab_mesh = [\<lparr>c0 = 0, c1 = 0, c2 = 0\<rparr>, \<lparr>c0 = 5 / 2, c1 = 1, c2 = 1\<rparr>]"

definition plane_mesh :: "vec3 list" where
  "plane_mesh = [\<lparr>c0 = 0, c1 = 0, c2 = 5\<rparr>, \<lparr>c0 = 10, c1 = 0, c2 = 5\<rparr>,
                 \<lparr>c0 = 10, c1 = 10, c2 = 5\<rparr>, \<lparr>c0 = 0, c1 = 10, c2 = 5\<rparr>]"

definition step_map :: float_image where
  "step_map = \<lparr>img_width = 2, img_height = 1, img_data = [0, 3 / 2]\<rparr>"

definition coarse_arguments :: arguments where
  "coarse_arguments = default_arguments\<lparr>resolution := 2, max_altitude := 10\<rparr>"

definition ridge_mesh :: "vec3 list" where
  "ridge_mesh = [\<lparr>c0 = 0, c1 = 0, c2 = 1\<rparr>, \<lparr>c0 = 1 / 2, c1 = 1 / 2, c2 = 3\<rparr>,
                 \<lparr>c0 = 1, c1 = 1, c2 = 2\<rparr>]"

definition ridge_aabb :: aabb where
  "ridge_aabb = \<lparr>aabb_min = \<lparr>c0 = 0, c1 = 0, c2 = 1\<rparr>, aabb_max = \<lparr>c0 = 1, c1 = 1, c2 = 3\<rparr>\<rparr>"

definition ridge_map :: float_image where
  "ridge_map = \<lparr>img_width = 2, img_height = 2, img_data = [3, lowest, lowest, 2]\<rparr>"

section \<open>Trajectory evaluation\<close>

text \<open>
  \<^verbatim>\<open>main\<close> of the evaluator is built with \<^verbatim>\<open>GPU\<close> defined and \<^verbatim>\<open>CPU\<close> undefined: for
  every camera of the trajectory it launches the device kernel
  \<^verbatim>\<open>populate_histogram\<close>, and after the reduction kernel it computes the exported
  values on the host. The two kernels are not among the sources. The block of \<^verbatim>\<open>main\<close>
  under \<^verbatim>\<open>#if CPU\<close> is removed by the preprocessor and is not modelled.
\<close>

subsection \<open>Vectors, matrices and cameras\<close>

type_synonym vec2 = "real \<times> real"

definition vsub :: "vec3 \<Rightarrow> vec3 \<Rightarrow> vec3" where
  "vsub a b = \<lparr>c0 = c0 a - c0 b, c1 = c1 a - c1 b, c2 = c2 a - c2 b\<rparr>"

definition vadd :: "vec3 \<Rightarrow> vec3 \<Rightarrow> vec3" where
  "vadd a b = \<lparr>c0 = c0 a + c0 b, c1 = c1 a + c1 b, c2 = c2 a + c2 b\<rparr>"

definition vscale :: "vec3 \<Rightarrow> real \<Rightarrow> vec3" where
  "vscale a k = \<lparr>c0 = c0 a * k, c1 = c1 a * k, c2 = c2 a * k\<rparr>"

definition vdiv :: "vec3 \<Rightarrow> real \<Rightarrow> vec3" where
  "vdiv a k = \<lparr>c0 = c0 a / k, c1 = c1 a / k, c2 = c2 a / k\<rparr>"

definition vdot :: "vec3 \<Rightarrow> vec3 \<Rightarrow> real" where
  "vdot a b = c0 a * c0 b + c1 a * c1 b + c2 a * c2 b"

definition vnorm :: "vec3 \<Rightarrow> real" where
  "vnorm a = sqrt (vdot a a)"

text \<open>
  A 3x3 matrix by its rows, and a 4x4 matrix by the 3x3 block and the fourth column of
  its first three rows.
\<close>

record mat3 =
  row0 :: vec3
  row1 :: vec3
  row2 :: vec3

record mat4 =
  lin :: mat3
  col3 :: vec3

text \<open>
  What \<^verbatim>\<open>fill_calibration\<close>, \<^verbatim>\<open>fill_world_to_cam\<close> and \<^verbatim>\<open>fill_camera_pos\<close> write
  for one camera of the trajectory, in the loop over the cameras of \<^verbatim>\<open>main\<close>.
\<close>

record camera =
  cam_calib :: mat3
  cam_w2c :: mat4
  cam_pos :: vec3

text \<open>A point of the proxy cloud, as \<^verbatim>\<open>load_point_cloud\<close> stores it.\<close>

record cloud_point =
  vertex :: vec3
  normal :: vec3

subsection \<open>Direction histogram\<close>

text \<open>
  \<^verbatim>\<open>cacc::VectorArray<HOST, Vec2f>::Data\<close>, as the export loop of \<^verbatim>\<open>main\<close> reads it: a
  buffer of 8-byte \<^verbatim>\<open>Vec2f\<close> cells, row \<open>r\<close> of point \<open>i\<close> at cell \<open>r * stride + i\<close> with
  \<open>stride = pitch / sizeof(Vec2f)\<close>. The row index is a \<^verbatim>\<open>uint\<close>; its product with
  the stride is written with its wrap-around at \<open>2 ^ 32\<close>. The row counter of each
  point and the capacity are the fields that the data model of the spec gives to the
  store.
\<close>

record vector_array =
  num_rows_ptr :: "nat list"
  data_ptr :: "vec2 list"
  max_rows :: nat
  pitch :: nat

definition stride :: "vector_array \<Rightarrow> nat" where
  "stride dir_hist = pitch dir_hist div 8"

definition cell :: "vector_array \<Rightarrow> nat \<Rightarrow> nat \<Rightarrow> nat" where
  "cell dir_hist row i = (row * stride dir_hist) mod 2 ^ 32 + i"

definition max_cameras :: nat where
  "max_cameras = 20"

text \<open>
  Modelled from the spec: \<^verbatim>\<open>cacc::VectorArray::create\<close> is not among the sources.
  The spec describes the store as a contiguous buffer with a stride, of fixed capacity
  \<open>max_cameras\<close> rows per point, empty at first. The padding of a row is a parameter.
\<close>

definition create :: "nat \<Rightarrow> nat \<Rightarrow> nat \<Rightarrow> vector_array" where
  "create num_cols rows padding =
     \<lparr>num_rows_ptr = replicate num_cols 0,
      data_ptr = replicate (rows * (num_cols + padding)) (0, 0),
      max_rows = rows,
      pitch = 8 * (num_cols + padding)\<rparr>"

subsection \<open>The accumulation kernel\<close>

text \<open>
  Modelled from the spec: \<^verbatim>\<open>acc::BVHTree::intersect\<close> and its device mirror belong to
  a library that is not among the sources. The spec requires of it a ray-intersection
  test against the triangles of the proxy mesh. The mesh is represented by the ray
  parameters at which a ray from a given origin in a given direction meets its
  triangles; the test succeeds when one of them lies between \<open>tmin\<close> and \<open>tmax\<close>.
\<close>

record ray =
  origin :: vec3
  dir :: vec3
  tmin :: real
  tmax :: real

type_synonym mesh = "vec3 \<Rightarrow> vec3 \<Rightarrow> real list"

definition intersect :: "mesh \<Rightarrow> ray \<Rightarrow> bool" where
  "intersect m r = list_ex (\<lambda>t. tmin r \<le> t \<and> t \<le> tmax r) (m (origin r) (dir r))"

text \<open>
  Modelled from the spec: the kernel \<^verbatim>\<open>populate_histogram\<close> is not among the sources;
  only its launch in \<^verbatim>\<open>main\<close> is, with the arguments \<^verbatim>\<open>w2c\<close>, \<^verbatim>\<open>calib\<close>,
  \<^verbatim>\<open>view_pos\<close>, \<^verbatim>\<open>width\<close>, \<^verbatim>\<open>height\<close>, the tree, the cloud and the histogram. The
  spec describes what it does for each point of the cloud:
  \<^item> project the point into the simulated image plane; if outside the image bounds,
    discard;
  \<^item> otherwise cast an occlusion ray from a small offset outside the surface toward the
    camera; if the ray intersects any mesh triangle before reaching the camera, the
    point is occluded from this camera and discarded;
  \<^item> otherwise append (azimuth, elevation) of the observation direction to the row
    store of the point if room remains (row count \<open>< max_cameras\<close>); if full, the
    observation is silently dropped.

  The spec leaves three parts open, which are parameters of the model: the projection,
  the origin of the ray (the small offset outside the surface), and the encoding of a
  direction as azimuth and elevation.
\<close>

record kernel_parts =
  project :: "mat4 \<Rightarrow> mat3 \<Rightarrow> vec3 \<Rightarrow> vec2"
  lift :: "cloud_point \<Rightarrow> vec3 \<Rightarrow> vec3"
  angles :: "vec3 \<Rightarrow> vec2"

definition inside_image :: "int \<Rightarrow> int \<Rightarrow> vec2 \<Rightarrow> bool" where
  "inside_image width height p \<longleftrightarrow>
     0 \<le> fst p \<and> fst p < real_of_int width \<and> 0 \<le> snd p \<and> snd p < real_of_int height"

text \<open>
  The ray starts at the lifted point and runs toward the camera; it reaches the camera
  at the parameter \<open>tmax\<close>, the distance from its origin to the camera.
\<close>

definition occlusion_ray :: "kernel_parts \<Rightarrow> vec3 \<Rightarrow> cloud_point \<Rightarrow> ray" where
  "occlusion_ray parts view_pos pt =
     (let start = lift parts pt view_pos; to_camera = vsub view_pos start; n = vnorm to_camera
      in \<lparr>origin = start, dir = vdiv to_camera n, tmin = 0, tmax = n\<rparr>)"

text \<open>
  The append with its capacity guard. The row is written to the cell that the export
  loop reads for it; a write outside the buffer is an error of the model.
\<close>

definition append_row :: "vector_array \<Rightarrow> nat \<Rightarrow> vec2 \<Rightarrow> error + vector_array" where
  "append_row dir_hist i d =
     (let row = num_rows_ptr dir_hist ! i in
      if max_rows dir_hist \<le> row then Inr dir_hist
      else
        let k = cell dir_hist row i
        in if length (data_ptr dir_hist) \<le> k then Inl OutOfBounds
           else Inr (dir_hist\<lparr>data_ptr := (data_ptr dir_hist)[k := d],
                               num_rows_ptr := (num_rows_ptr dir_hist)[i := row + 1]\<rparr>))"

text \<open>
  The two tests in the order of the spec, and what the kernel does for one point: a
  point that fails a test is discarded, which leaves the histogram as it is.
\<close>

datatype verdict = OutsideImage | Occluded | Visible

definition visibility ::
  "kernel_parts \<Rightarrow> mat4 \<Rightarrow> mat3 \<Rightarrow> vec3 \<Rightarrow> int \<Rightarrow> int \<Rightarrow> mesh \<Rightarrow> cloud_point \<Rightarrow> verdict" where
  "visibility parts w2c calib view_pos width height bvh_tree pt =
     (if \<not> inside_image width height (project parts w2c calib (vertex pt)) then OutsideImage
      else if intersect bvh_tree (occlusion_ray parts view_pos pt) then Occluded
      else Visible)"

definition populate_point ::
  "kernel_parts \<Rightarrow> mat4 \<Rightarrow> mat3 \<Rightarrow> vec3 \<Rightarrow> int \<Rightarrow> int \<Rightarrow> mesh \<Rightarrow> cloud_point list \<Rightarrow> nat
     \<Rightarrow> vector_array \<Rightarrow> error + vector_array" where
  "populate_point parts w2c calib view_pos width height bvh_tree cloud i dir_hist =
     (let pt = cloud ! i in
      case visibility parts w2c calib view_pos width height bvh_tree pt of
        OutsideImage \<Rightarrow> Inr dir_hist
      | Occluded \<Rightarrow> Inr dir_hist
      | Visible \<Rightarrow>
          append_row dir_hist i (angles parts (dir (occlusion_ray parts view_pos pt))))"

fun run :: "('a \<Rightarrow> 's \<Rightarrow> error + 's) \<Rightarrow> 'a list \<Rightarrow> 's \<Rightarrow> error + 's" where
  "run body [] s = Inr s"
| "run body (a # as) s = (case body a s of Inl e \<Rightarrow> Inl e | Inr s' \<Rightarrow> run body as s')"

text \<open>
  The kernel handles every point of the cloud. The points are independent of each
  other: each one touches its own counter and its own cells only.
\<close>

definition populate_histogram ::
  "kernel_parts \<Rightarrow> mat4 \<Rightarrow> mat3 \<Rightarrow> vec3 \<Rightarrow> int \<Rightarrow> int \<Rightarrow> mesh \<Rightarrow> cloud_point list
     \<Rightarrow> vector_array \<Rightarrow> error + vector_array" where
  "populate_histogram parts w2c calib view_pos width height bvh_tree cloud dir_hist =
     run (populate_point parts w2c calib view_pos width height bvh_tree cloud)
         [0 ..< length cloud] dir_hist"

text \<open>
  The loop over the cameras in \<^verbatim>\<open>main\<close>: one launch of the kernel per camera, with the
  image size 1920 by 1080. A failed launch ends the run.
\<close>

definition accumulate ::
  "kernel_parts \<Rightarrow> mesh \<Rightarrow> cloud_point list \<Rightarrow> camera list \<Rightarrow> vector_array
     \<Rightarrow> error + vector_array" where
  "accumulate parts bvh_tree cloud trajectory dir_hist =
     run (\<lambda>cam. populate_histogram parts (cam_w2c cam) (cam_calib cam) (cam_pos cam) 1920 1080
                  bvh_tree cloud)
         trajectory dir_hist"

subsection \<open>Export of the quality value\<close>

definition export_value :: "vector_array \<Rightarrow> nat \<Rightarrow> real" where
  "export_value dir_hist i =
     (let mean = data_ptr dir_hist ! cell dir_hist ((max_cameras - 2) mod 2 ^ 32) i;
          eigen = data_ptr dir_hist ! cell dir_hist ((max_cameras - 1) mod 2 ^ 32) i;
          lambda = max \<bar>fst eigen\<bar> \<bar>snd eigen\<bar>
      in fst mean * (10 * max 0 (min lambda (1 / 10))))"

text \<open>
  The export branch of \<^verbatim>\<open>main\<close>: nothing is computed when no export path is given,
  and otherwise one value per point.
\<close>

definition export_values :: "string \<Rightarrow> vector_array \<Rightarrow> nat \<Rightarrow> real list option" where
  "export_values export_cloud dir_hist num_vertices =
     (if export_cloud = [] then None
      else Some (map (export_value dir_hist) [0 ..< num_vertices]))"

text \<open>The words of the spec for the same value, to compare with.\<close>

definition clamp :: "real \<Rightarrow> real \<Rightarrow> real \<Rightarrow> real" where
  "clamp x lo hi = (if x < lo then lo else if hi < x then hi else x)"

definition largest_magnitude :: "vec2 \<Rightarrow> real" where
  "largest_magnitude e = (if \<bar>snd e\<bar> \<le> \<bar>fst e\<bar> then \<bar>fst e\<bar> else \<bar>snd e\<bar>)"

definition row_of :: "vector_array \<Rightarrow> nat \<Rightarrow> nat \<Rightarrow> vec2" where
  "row_of dir_hist r i = data_ptr dir_hist ! (r * stride dir_hist + i)"

definition spec_quality :: "vector_array \<Rightarrow> nat \<Rightarrow> real" where
  "spec_quality dir_hist i =
     fst (row_of dir_hist (max_rows dir_hist - 2) i) *
       (10 * clamp (largest_magnitude (row_of dir_hist (max_rows dir_hist - 1) i)) 0 (1 / 10))"

subsection \<open>Notions used to state the properties of the histogram\<close>

text \<open>
  The layout of a store for \<open>n\<close> points: one counter per point, rows at least \<open>n\<close> cells
  apart, a buffer of \<open>max_rows\<close> rows, and cell numbers that stay below \<open>2 ^ 32\<close>.
\<close>

definition layout :: "nat \<Rightarrow> vector_array \<Rightarrow> bool" where
  "layout n dir_hist \<longleftrightarrow>
     length (num_rows_ptr dir_hist) = n \<and>
     n \<le> stride dir_hist \<and>
     length (data_ptr dir_hist) = max_rows dir_hist * stride dir_hist \<and>
     max_rows dir_hist * stride dir_hist < 2 ^ 32 \<and>
     max_rows dir_hist < 2 ^ 32"

text \<open>No counter exceeds the capacity.\<close>

definition within_capacity :: "vector_array \<Rightarrow> bool" where
  "within_capacity dir_hist = list_all (\<lambda>r. r \<le> max_rows dir_hist) (num_rows_ptr dir_hist)"

text \<open>The rows accumulated for point \<open>i\<close>, oldest first.\<close>

definition rows :: "vector_array \<Rightarrow> nat \<Rightarrow> vec2 list" where
  "rows dir_hist i = map (\<lambda>r. row_of dir_hist r i) [0 ..< num_rows_ptr dir_hist ! i]"

subsection \<open>Example inputs of the trajectory evaluation\<close>

text \<open>
  A pinhole projection, a lift by the normal of the point, and spherical angles for
  the three open parts of the kernel.
\<close>

definition mat3_mul :: "mat3 \<Rightarrow> vec3 \<Rightarrow> vec3" where
  "mat3_mul m v = \<lparr>c0 = vdot (row0 m) v, c1 = vdot (row1 m) v, c2 = vdot (row2 m) v\<rparr>"

definition mat4_mult :: "mat4 \<Rightarrow> vec3 \<Rightarrow> real \<Rightarrow> vec3" where
  "mat4_mult m v w = vadd (mat3_mul (lin m) v) (vscale (col3 m) w)"

definition pinhole :: "mat4 \<Rightarrow> mat3 \<Rightarrow> vec3 \<Rightarrow> vec2" where
  "pinhole m k v =
     (let pt = mat3_mul k (mat4_mult m v 1) in (c0 pt / c2 pt, c1 pt / c2 pt))"

definition atan2 :: "real \<Rightarrow> real \<Rightarrow> real" where
  "atan2 y x =
     (if 0 < x then arctan (y / x)
      else if x < 0 then (if 0 \<le> y then arctan (y / x) + pi else arctan (y / x) - pi)
      else if 0 < y then pi / 2
      else if y < 0 then - pi / 2
      else 0)"

definition spherical :: "vec3 \<Rightarrow> vec2" where
  "spherical d = (atan2 (c1 d) (c0 d), arccos (c2 d))"

definition example_parts :: kernel_parts where
  "example_parts =
     \<lparr>project = pinhole,
      lift = (\<lambda>pt view_pos. vadd (vertex pt) (normal pt)),
      angles = spherical\<rparr>"

text \<open>
  A camera 100 units above the origin that looks straight down, and a point at the
  origin with the normal pointing up. The meshes: one that no ray meets; a horizontal
  square around the vertical axis, given by its height and half its side; such a
  square at height 201, above the camera; and one at height 50, between the point and
  the camera.
\<close>

definition nadir_camera :: camera where
  "nadir_camera =
     \<lparr>cam_calib = \<lparr>row0 = \<lparr>c0 = 1000, c1 = 0, c2 = 960\<rparr>,
                row1 = \<lparr>c0 = 0, c1 = 1000, c2 = 540\<rparr>,
                row2 = \<lparr>c0 = 0, c1 = 0, c2 = 1\<rparr>\<rparr>,
      cam_w2c = \<lparr>lin = \<lparr>row0 = \<lparr>c0 = 1, c1 = 0, c2 = 0\<rparr>,
                     row1 = \<lparr>c0 = 0, c1 = - 1, c2 = 0\<rparr>,
                     row2 = \<lparr>c0 = 0, c1 = 0, c2 = - 1\<rparr>\<rparr>,
             col3 = \<lparr>c0 = 0, c1 = 0, c2 = 100\<rparr>\<rparr>,
      cam_pos = \<lparr>c0 = 0, c1 = 0, c2 = 100\<rparr>\<rparr>"

definition ground_point :: cloud_point where
  "ground_point =
     \<lparr>vertex = \<lparr>c0 = 0, c1 = 0, c2 = 0\<rparr>, normal = \<lparr>c0 = 0, c1 = 0, c2 = 1\<rparr>\<rparr>"

definition empty_mesh :: mesh where
  "empty_mesh = (\<lambda>_ _. [])"




text \<open>A store for one point that is full, and one that holds a reduction result.\<close>

definition full_store :: vector_array where
  "full_store = (create 1 max_cameras 0)\<lparr>num_rows_ptr := [20]\<rparr>"

definition reduced_store :: vector_array where
  "reduced_store =
     (create 1 max_cameras 0)\<lparr>data_ptr := replicate 18 (0, 0) @ [(1 / 2, 0), (- 1 / 4, 1 / 20)]\<rparr>"

section \<open>Properties of the sampler\<close>

subsection \<open>Bounding box and grid dimensions\<close>

lemma float_to_int_nonneg: "0 \<le> r \<Longrightarrow> float_to_int r = \<lfloor>r\<rfloor>"
  by (simp add: float_to_int_def)

lemma float_to_int_succ: "0 \<le> r \<Longrightarrow> float_to_int (r + 1) = \<lfloor>r\<rfloor> + 1"
  by (simp add: float_to_int_def)

lemma grid_width_floor:
  assumes "c0 (aabb_min bb) \<le> c0 (aabb_max bb)" "0 < resolution args"
  shows "grid_width args bb = \<lfloor>(c0 (aabb_max bb) - c0 (aabb_min bb)) / resolution args\<rfloor> + 1"
  unfolding grid_width_def using assms by (intro float_to_int_succ) simp

lemma grid_height_floor:
  assumes "c1 (aabb_min bb) \<le> c1 (aabb_max bb)" "0 < resolution args"
  shows "grid_height args bb = \<lfloor>(c1 (aabb_max bb) - c1 (aabb_min bb)) / resolution args\<rfloor> + 1"
  unfolding grid_height_def using assms by (intro float_to_int_succ) simp

lemma aabb_extend_sel:
  "c0 (aabb_min (aabb_extend v bb)) = min (c0 (aabb_min bb)) (c0 v)"
  "c1 (aabb_min (aabb_extend v bb)) = min (c1 (aabb_min bb)) (c1 v)"
  "c2 (aabb_min (aabb_extend v bb)) = min (c2 (aabb_min bb)) (c2 v)"
  "c0 (aabb_max (aabb_extend v bb)) = max (c0 (aabb_max bb)) (c0 v)"
  "c1 (aabb_max (aabb_extend v bb)) = max (c1 (aabb_max bb)) (c1 v)"
  "c2 (aabb_max (aabb_extend v bb)) = max (c2 (aabb_max bb)) (c2 v)"
  by (simp_all add: aabb_extend_def)

lemma fold_extend_shrinks:
  "c0 (aabb_min (fold aabb_extend vs bb)) \<le> c0 (aabb_min bb) \<and>
   c1 (aabb_min (fold aabb_extend vs bb)) \<le> c1 (aabb_min bb) \<and>
   c2 (aabb_min (fold aabb_extend vs bb)) \<le> c2 (aabb_min bb) \<and>
   c0 (aabb_max bb) \<le> c0 (aabb_max (fold aabb_extend vs bb)) \<and>
   c1 (aabb_max bb) \<le> c1 (aabb_max (fold aabb_extend vs bb)) \<and>
   c2 (aabb_max bb) \<le> c2 (aabb_max (fold aabb_extend vs bb))"
proof (induction vs arbitrary: bb)
  case Nil
  show ?case by simp
next
  case (Cons v vs)
  from Cons.IH [of "aabb_extend v bb"] show ?case
    by (simp add: aabb_extend_sel)
qed

lemma fold_extend_contains:
  assumes "v \<in> set vs"
  shows "c0 (aabb_min (fold aabb_extend vs bb)) \<le> c0 v \<and> c0 v \<le> c0 (aabb_max (fold aabb_extend vs bb)) \<and>
         c1 (aabb_min (fold aabb_extend vs bb)) \<le> c1 v \<and> c1 v \<le> c1 (aabb_max (fold aabb_extend vs bb)) \<and>
         c2 (aabb_min (fold aabb_extend vs bb)) \<le> c2 v \<and> c2 v \<le> c2 (aabb_max (fold aabb_extend vs bb))"
  using assms
proof (induction vs arbitrary: bb)
  case Nil
  then show ?case by simp
next
  case (Cons u vs)
  show ?case
  proof (cases "v = u")
    case True
    from fold_extend_shrinks [of vs "aabb_extend u bb"] show ?thesis
      by (simp add: True aabb_extend_sel)
  next
    case False
    with Cons.prems have "v \<in> set vs" by simp
    from Cons.IH [OF this, of "aabb_extend u bb"] show ?thesis by simp
  qed
qed

lemma calculate_aabb_contains:
  assumes "v \<in> set verts"
  shows "c0 (aabb_min (calculate_aabb verts)) \<le> c0 v" "c0 v \<le> c0 (aabb_max (calculate_aabb verts))"
        "c1 (aabb_min (calculate_aabb verts)) \<le> c1 v" "c1 v \<le> c1 (aabb_max (calculate_aabb verts))"
        "c2 (aabb_min (calculate_aabb verts)) \<le> c2 v" "c2 v \<le> c2 (aabb_max (calculate_aabb verts))"
  using fold_extend_contains [OF assms, of empty_aabb] by (simp_all add: calculate_aabb_def)

lemma cell_in_range:
  fixes lo hi p res :: real
  assumes "lo \<le> p" "p \<le> hi" "0 < res"
  shows "0 \<le> float_to_int ((p - lo) / res) \<and> float_to_int ((p - lo) / res) < float_to_int ((hi - lo) / res + 1)"
proof -
  have q: "0 \<le> (p - lo) / res" "(p - lo) / res \<le> (hi - lo) / res"
    using assms by (simp_all add: divide_right_mono)
  then have "0 \<le> (hi - lo) / res" by linarith
  then have w: "float_to_int ((hi - lo) / res + 1) = \<lfloor>(hi - lo) / res\<rfloor> + 1"
    by (rule float_to_int_succ)
  have "\<lfloor>(p - lo) / res\<rfloor> \<le> \<lfloor>(hi - lo) / res\<rfloor>"
    using q(2) by (rule floor_mono)
  moreover have "0 \<le> \<lfloor>(p - lo) / res\<rfloor>" using q(1) by simp
  ultimately show ?thesis
    by (simp add: w float_to_int_nonneg [OF q(1)])
qed

lemma vertex_cell_in_grid:
  assumes "v \<in> set verts" "0 < resolution args"
  shows "0 \<le> vertex_cell_x args (calculate_aabb verts) v"
        "vertex_cell_x args (calculate_aabb verts) v < grid_width args (calculate_aabb verts)"
        "0 \<le> vertex_cell_y args (calculate_aabb verts) v"
        "vertex_cell_y args (calculate_aabb verts) v < grid_height args (calculate_aabb verts)"
  using cell_in_range [OF calculate_aabb_contains(1,2) [OF assms(1)] assms(2)]
        cell_in_range [OF calculate_aabb_contains(3,4) [OF assms(1)] assms(2)]
  by (simp_all add: vertex_cell_x_def vertex_cell_y_def grid_width_def grid_height_def)

subsection \<open>Height map\<close>

lemma cell_index_less:
  assumes "wf_image w h im" "0 \<le> x" "x < w" "0 \<le> y" "y < h"
  shows "cell_index im x y < length (img_data im)"
proof -
  have "y + 1 \<le> h" using assms by simp
  then have "(y + 1) * w \<le> h * w"
    using assms by (intro mult_right_mono) simp_all
  then have "y * w + x < w * h"
    using assms by (simp add: algebra_simps)
  moreover have "0 \<le> y * w + x" using assms by simp
  ultimately show ?thesis
    using assms(1) by (simp add: cell_index_def wf_image_def)
qed

lemma cell_index_inj:
  assumes "img_width im = w" "0 \<le> x" "x < w" "0 \<le> y" "0 \<le> x'" "x' < w" "0 \<le> y'"
    and eq: "cell_index im x y = cell_index im x' y'"
  shows "x = x' \<and> y = y'"
proof -
  have nn: "0 \<le> y * w + x" "0 \<le> y' * w + x'" using assms by simp_all
  with eq assms(1) have e: "y * w + x = y' * w + x'"
    by (simp add: cell_index_def)
  have "(y * w + x) mod w = x" "(y' * w + x') mod w = x'"
    using assms by simp_all
  with e have "x = x'" by simp
  have "(y * w + x) div w = y" "(y' * w + x') div w = y'"
    using assms by simp_all
  with e have "y = y'" by simp
  with \<open>x = x'\<close> show ?thesis by simp
qed

lemma image_at_set:
  assumes "wf_image w h im" "0 \<le> x" "x < w" "0 \<le> y" "y < h"
          "0 \<le> x'" "x' < w" "0 \<le> y'" "y' < h"
  shows "image_at (image_set im x' y' v) x y = (if x = x' \<and> y = y' then v else image_at im x y)"
proof (cases "x = x' \<and> y = y'")
  case True
  with cell_index_less [OF assms(1-5)] show ?thesis
    by (simp add: image_at_def image_set_def cell_index_def)
next
  case False
  have "cell_index im x' y' \<noteq> cell_index im x y"
    using cell_index_inj [of im w x' y' x y] assms False by (auto simp: wf_image_def)
  then show ?thesis using False
    by (auto simp add: image_at_def image_set_def cell_index_def)
qed

lemma wf_image_set: "wf_image w h im \<Longrightarrow> wf_image w h (image_set im x y v)"
  by (simp add: wf_image_def image_set_def)

lemma wf_image_fresh: "wf_image w h (image_fill v (image_create w h))"
  by (simp add: wf_image_def image_fill_def image_create_def)

lemma image_at_fresh:
  assumes "0 \<le> x" "x < w" "0 \<le> y" "y < h"
  shows "image_at (image_fill v (image_create w h)) x y = v"
proof -
  have "cell_index (image_fill v (image_create w h)) x y
          < length (img_data (image_fill v (image_create w h)))"
    using wf_image_fresh assms by (rule cell_index_less)
  then show ?thesis
    by (simp add: image_at_def image_fill_def image_create_def cell_index_def)
qed

lemma splat_cases:
  assumes "splat args bb w h v im = Inr im'"
  shows "0 \<le> vertex_cell_x args bb v \<and> vertex_cell_x args bb v < w \<and>
         0 \<le> vertex_cell_y args bb v \<and> vertex_cell_y args bb v < h \<and>
         im' = (if image_at im (vertex_cell_x args bb v) (vertex_cell_y args bb v) > c2 v then im
                else image_set im (vertex_cell_x args bb v) (vertex_cell_y args bb v) (c2 v))"
  using assms by (auto simp: splat_def Let_def split: if_splits)

lemma splat_wf:
  assumes "splat args bb w h v im = Inr im'" "wf_image w h im"
  shows "wf_image w h im'"
  using splat_cases [OF assms(1)] assms(2) by (auto simp: wf_image_set)

lemma splat_at:
  assumes "splat args bb w h v im = Inr im'" "wf_image w h im"
          "0 \<le> x" "x < w" "0 \<le> y" "y < h"
  shows "image_at im' x y =
           (if vertex_cell_x args bb v = x \<and> vertex_cell_y args bb v = y
            then max (c2 v) (image_at im x y) else image_at im x y)"
proof -
  note c = splat_cases [OF assms(1)]
  show ?thesis
  proof (cases "image_at im (vertex_cell_x args bb v) (vertex_cell_y args bb v) > c2 v")
    case True
    with c have "im' = im" by simp
    with True show ?thesis by auto
  next
    case False
    with c have "im' = image_set im (vertex_cell_x args bb v) (vertex_cell_y args bb v) (c2 v)"
      by simp
    with False c image_at_set [OF assms(2-6), of "vertex_cell_x args bb v" "vertex_cell_y args bb v" "c2 v"]
    show ?thesis by auto
  qed
qed

lemma rasterize_at:
  assumes "rasterize args bb w h verts im = Inr im'" "wf_image w h im"
          "0 \<le> x" "x < w" "0 \<le> y" "y < h"
  shows "wf_image w h im' \<and>
         image_at im' x y = fold max (cell_heights args bb verts x y) (image_at im x y)"
  using assms(1,2)
proof (induction verts arbitrary: im)
  case Nil
  then show ?case by (simp add: cell_heights_def)
next
  case (Cons v verts)
  from Cons.prems(1) obtain im1 where
    s: "splat args bb w h v im = Inr im1" and r: "rasterize args bb w h verts im1 = Inr im'"
    by (auto split: sum.splits)
  note w1 = splat_wf [OF s Cons.prems(2)]
  from Cons.IH [OF r w1] splat_at [OF s Cons.prems(2) assms(3-6)]
  show ?case by (simp add: cell_heights_def)
qed

lemma fold_max_sentinel:
  assumes "zs \<noteq> []" "list_all (\<lambda>z. a \<le> z) zs"
  shows "fold max zs a = Max (set zs)"
proof -
  have "fold max zs a = Max (set (a # zs))" by (rule Max.set_eq_fold [symmetric])
  also have "\<dots> = max a (Max (set zs))" using assms(1) by simp
  also have "\<dots> = Max (set zs)"
  proof -
    obtain z where "z \<in> set zs" using assms(1) by (cases zs) auto
    then have "a \<le> z" "z \<le> Max (set zs)" using assms(2) by (simp_all add: list_all_iff)
    then show ?thesis by simp
  qed
  finally show ?thesis .
qed

lemma image_at_normalize:
  assumes "wf_image w h im" "0 \<le> x" "x < w" "0 \<le> y" "y < h"
  shows "image_at (normalize g im) x y =
           (if image_at im x y \<noteq> lowest then image_at im x y - g else 0)"
  using cell_index_less [OF assms]
  by (simp add: image_at_def normalize_def cell_index_def)

lemma wf_image_normalize: "wf_image w h im \<Longrightarrow> wf_image w h (normalize g im)"
  by (simp add: wf_image_def normalize_def)

lemma rasterize_succeeds:
  assumes "0 < resolution args" "set vs \<subseteq> set verts"
  shows "\<exists>im'. rasterize args (calculate_aabb verts) (grid_width args (calculate_aabb verts))
                  (grid_height args (calculate_aabb verts)) vs im = Inr im'"
  using assms(2)
proof (induction vs arbitrary: im)
  case Nil
  show ?case by simp
next
  case (Cons v vs)
  then have "v \<in> set verts" by simp
  note c = vertex_cell_in_grid [OF this assms(1)]
  then have "\<exists>im1. splat args (calculate_aabb verts) (grid_width args (calculate_aabb verts))
                  (grid_height args (calculate_aabb verts)) v im = Inr im1"
    by (simp add: splat_def Let_def)
  then obtain im1 where "splat args (calculate_aabb verts) (grid_width args (calculate_aabb verts))
                  (grid_height args (calculate_aabb verts)) v im = Inr im1" ..
  moreover from Cons have "\<exists>im'. rasterize args (calculate_aabb verts) (grid_width args (calculate_aabb verts))
                  (grid_height args (calculate_aabb verts)) vs im1 = Inr im'" by simp
  ultimately show ?case by auto
qed

lemma ground_level_replicate:
  assumes "v \<noteq> lowest"
  shows "fold (\<lambda>h ground_level. if h \<noteq> lowest \<and> h < ground_level then h else ground_level)
           (replicate n v) g = (if n = 0 then g else min v g)"
  using assms by (induction n arbitrary: g) (auto simp: min_def)

lemma ground_level_flat:
  assumes "v \<noteq> lowest" "v \<le> float_max" "0 < w" "0 < h"
  shows "estimate_ground_level (flat_image w h v) = v"
proof -
  have "0 < w * h" using assms by simp
  then have "nat (w * h) \<noteq> 0" by simp
  moreover have "img_data (flat_image w h v) = replicate (nat (w * h)) v"
    by (simp add: flat_image_def image_fill_def image_create_def map_replicate_const)
  ultimately show ?thesis using assms(2)
    by (simp add: estimate_ground_level_def ground_level_replicate [OF assms(1)] del: fold_replicate)
qed

text \<open>
  Claim C7. After the rasterization of vertices whose heights are not below the
  sentinel, a cell to which at least one vertex maps holds the maximum height of these
  vertices; after the normalization such a cell, when its value is not the sentinel,
  holds that maximum minus the ground level, and a cell to which no vertex maps holds
  exactly 0.
\<close>

theorem height_map_holds_cell_maximum:
  assumes "rasterize args bb w h verts (image_fill lowest (image_create w h)) = Inr hmap"
          "0 \<le> x" "x < w" "0 \<le> y" "y < h"
          "list_all (\<lambda>v. lowest \<le> c2 v) verts"
  shows "(cell_heights args bb verts x y \<noteq> [] \<longrightarrow>
            image_at hmap x y = Max (set (cell_heights args bb verts x y))) \<and>
         (cell_heights args bb verts x y \<noteq> [] \<and> Max (set (cell_heights args bb verts x y)) \<noteq> lowest \<longrightarrow>
            image_at (normalize (estimate_ground_level hmap) hmap) x y =
              Max (set (cell_heights args bb verts x y)) - estimate_ground_level hmap) \<and>
         (cell_heights args bb verts x y = [] \<longrightarrow>
            image_at hmap x y = lowest \<and>
            image_at (normalize (estimate_ground_level hmap) hmap) x y = 0)"
proof -
  let ?zs = "cell_heights args bb verts x y"
  let ?g = "estimate_ground_level hmap"
  note r = rasterize_at [OF assms(1) wf_image_fresh assms(2-5)]
  then have wf: "wf_image w h hmap"
    and at: "image_at hmap x y = fold max ?zs lowest"
    by (simp_all add: image_at_fresh [OF assms(2-5)])
  note n = image_at_normalize [OF wf assms(2-5), of ?g]
  have low: "list_all (\<lambda>z. lowest \<le> z) ?zs"
    using assms(6) by (auto simp: cell_heights_def list_all_iff)
  have occ: "image_at hmap x y = Max (set ?zs)" if "?zs \<noteq> []"
    using fold_max_sentinel [OF that low] at by simp
  have emp: "image_at hmap x y = lowest" if "?zs = []"
    using at that by simp
  from occ emp n show ?thesis by auto
qed

lemma rasterize_ridge:
  "rasterize default_arguments ridge_aabb 2 2 ridge_mesh (image_fill lowest (image_create 2 2))
     = Inr ridge_map"
  by (simp add: ridge_mesh_def ridge_aabb_def ridge_map_def default_arguments_def splat_def
        vertex_cell_x_def vertex_cell_y_def float_to_int_def image_at_def image_set_def
        cell_index_def image_fill_def image_create_def lowest_def float_max_def
        numeral_2_eq_2 numeral_3_eq_3 eval_nat_numeral)

text \<open>
  Three vertices on a grid of 2 by 2 cells: two of them map to cell \<open>(0, 0)\<close>, with the
  heights 1 and 3, and none maps to cell \<open>(1, 0)\<close>.
\<close>

theorem height_map_holds_cell_maximum_witness:
  "calculate_aabb ridge_mesh = ridge_aabb \<and>
   rasterize default_arguments ridge_aabb 2 2 ridge_mesh (image_fill lowest (image_create 2 2))
     = Inr ridge_map \<and>
   cell_heights default_arguments ridge_aabb ridge_mesh 0 0 = [1, 3] \<and>
   image_at ridge_map 0 0 = 3 \<and>
   estimate_ground_level ridge_map = 2 \<and>
   image_at (normalize (estimate_ground_level ridge_map) ridge_map) 0 0 = 1 \<and>
   cell_heights default_arguments ridge_aabb ridge_mesh 1 0 = [] \<and>
   image_at (normalize (estimate_ground_level ridge_map) ridge_map) 1 0 = 0"
proof -
  have bb: "calculate_aabb ridge_mesh = ridge_aabb"
    by (simp add: calculate_aabb_def ridge_mesh_def ridge_aabb_def aabb_extend_def empty_aabb_def
          float_max_def lowest_def)
  have low: "list_all (\<lambda>v. lowest \<le> c2 v) ridge_mesh"
    by (simp add: ridge_mesh_def lowest_def float_max_def)
  have c00: "cell_heights default_arguments ridge_aabb ridge_mesh 0 0 = [1, 3]"
    and c10: "cell_heights default_arguments ridge_aabb ridge_mesh 1 0 = []"
    by (simp_all add: cell_heights_def ridge_mesh_def ridge_aabb_def default_arguments_def
          vertex_cell_x_def vertex_cell_y_def float_to_int_def)
  have g: "estimate_ground_level ridge_map = 2"
    by (simp add: estimate_ground_level_def ridge_map_def lowest_def float_max_def)
  from height_map_holds_cell_maximum [OF rasterize_ridge _ _ _ _ low, of 0 0]
       height_map_holds_cell_maximum [OF rasterize_ridge _ _ _ _ low, of 1 0]
       bb rasterize_ridge c00 c10 g
  show ?thesis by (simp add: lowest_def float_max_def)
qed

subsection \<open>Sample enumeration\<close>

lemma filter_upto_ge: "filter (\<lambda>z. k \<le> z) [a .. b] = [max a k .. b]"
proof (rule sorted_distinct_set_unique)
  show "sorted (filter (\<lambda>z. k \<le> z) [a .. b])" by (simp add: sorted_wrt_filter)
  show "distinct (filter (\<lambda>z. k \<le> z) [a .. b])" by simp
  show "sorted [max a k .. b]" by simp
  show "distinct [max a k .. b]" by simp
  show "set (filter (\<lambda>z. k \<le> z) [a .. b]) = set [max a k .. b]" by auto
qed

lemma admissible_iff_layer:
  assumes "0 < resolution args"
  shows "\<not> world_height args g z < fz \<longleftrightarrow> \<lceil>(fz - g) / resolution args\<rceil> \<le> z"
proof -
  have "\<not> world_height args g z < fz \<longleftrightarrow> (fz - g) / resolution args \<le> real_of_int z"
    using assms by (simp add: world_height_def pos_divide_le_eq algebra_simps not_less)
  also have "\<dots> \<longleftrightarrow> \<lceil>(fz - g) / resolution args\<rceil> \<le> z"
    by (simp add: ceiling_le_iff)
  finally show ?thesis .
qed

lemma column_samples_range:
  assumes "0 < resolution args"
  shows "column_samples args hmap g depth x y =
           map (\<lambda>z. (x, y, z))
               [max 0 \<lceil>(min_admissible args hmap x y - g) / resolution args\<rceil> .. depth - 1]"
  by (simp add: column_samples_def Let_def admissible_iff_layer [OF assms] filter_upto_ge)

lemma length_column_samples:
  assumes "0 < resolution args"
  shows "int (length (column_samples args hmap g depth x y)) =
           max 0 (depth - max 0 \<lceil>(min_admissible args hmap x y - g) / resolution args\<rceil>)"
  by (auto simp add: column_samples_range [OF assms])

lemma set_column_samples:
  "set (column_samples args hmap g depth x y) =
     {(x, y, z) | z. 0 \<le> z \<and> z < depth \<and>
        min_admissible args hmap x y \<le> world_height args g z}"
  by (auto simp: column_samples_def Let_def)

lemma set_sample_positions:
  "set (sample_positions args hmap g width height depth) =
     {(x, y, z) | x y z. 0 \<le> x \<and> x < width \<and> 0 \<le> y \<and> y < height \<and> 0 \<le> z \<and> z < depth \<and>
        min_admissible args hmap x y \<le> world_height args g z}"
  by (auto simp: sample_positions_def set_column_samples)

lemma dom_fill_volume_aux:
  "dom (fold (\<lambda>p vol. vol(p \<mapsto> render p)) samples vol0) = dom vol0 \<union> set samples"
  by (induction samples arbitrary: vol0) auto

lemma dom_fill_volume: "dom (fill_volume render samples) = set samples"
  by (simp add: fill_volume_def dom_fill_volume_aux)

lemma fill_volume_None_iff: "fill_volume render samples p = None \<longleftrightarrow> p \<notin> set samples"
  by (metis dom_fill_volume domIff)

text \<open>
  Claim C4. For every footprint cell \<open>(x, y)\<close> and every layer \<open>z\<close> of the grid, the voxel
  \<open>(x, y, z)\<close> is among the sample positions if and only if its world height
  \<open>ground_level + z * resolution\<close> is at least \<open>max(height_map(x, y), min_altitude)\<close>, and
  the volume holds no image for a voxel exactly when the voxel was skipped.
\<close>

theorem voxel_emitted_iff_admissible:
  assumes "0 \<le> x" "x < width" "0 \<le> y" "y < height" "0 \<le> z" "z < depth"
  shows "((x, y, z) \<in> set (sample_positions args hmap ground_level width height depth) \<longleftrightarrow>
            max (image_at hmap x y) (min_altitude args)
              \<le> ground_level + real_of_int z * resolution args) \<and>
         (fill_volume render (sample_positions args hmap ground_level width height depth) (x, y, z) = None
            \<longleftrightarrow> (x, y, z) \<notin> set (sample_positions args hmap ground_level width height depth))"
proof -
  have "(x, y, z) \<in> set (sample_positions args hmap ground_level width height depth) \<longleftrightarrow>
            max (image_at hmap x y) (min_altitude args)
              \<le> ground_level + real_of_int z * resolution args"
    using assms by (simp add: set_sample_positions min_admissible_def world_height_def)
  moreover have "fill_volume render (sample_positions args hmap ground_level width height depth) (x, y, z) = None
            \<longleftrightarrow> (x, y, z) \<notin> set (sample_positions args hmap ground_level width height depth)"
    by (rule fill_volume_None_iff)
  ultimately show ?thesis by simp
qed

text \<open>
  On a height map with the heights 0 and 3/2, at resolution 1 and ground level 0, layer 1
  of the second column is skipped and has no image, and layer 2 is emitted and has one.
\<close>

theorem voxel_emitted_iff_admissible_witness:
  "(1, 0, 1) \<notin> set (sample_positions default_arguments step_map 0 2 1 3) \<and>
   (1, 0, 2) \<in> set (sample_positions default_arguments step_map 0 2 1 3) \<and>
   fill_volume (\<lambda>_. ()) (sample_positions default_arguments step_map 0 2 1 3) (1, 0, 1) = None \<and>
   fill_volume (\<lambda>_. ()) (sample_positions default_arguments step_map 0 2 1 3) (1, 0, 2) \<noteq> None"
  using voxel_emitted_iff_admissible [of 1 2 0 1 1 3 default_arguments step_map 0 "\<lambda>_. ()"]
        voxel_emitted_iff_admissible [of 1 2 0 1 2 3 default_arguments step_map 0 "\<lambda>_. ()"]
  by (simp add: default_arguments_def step_map_def image_at_def cell_index_def)

text \<open>
  Claim C10. For a positive resolution, the layers emitted for a column are a range of
  layers that ends at the top layer \<open>depth - 1\<close> (possibly empty), and if layer \<open>z\<close> of a
  column is emitted then so is every layer \<open>z'\<close> of it with \<open>z < z' < depth\<close>.
\<close>

theorem emitted_layers_contiguous:
  assumes "0 < resolution args"
  shows "(\<exists>z0. 0 \<le> z0 \<and>
            column_samples args hmap ground_level depth x y = map (\<lambda>z. (x, y, z)) [z0 .. depth - 1]) \<and>
         ((x, y, z) \<in> set (sample_positions args hmap ground_level width height depth) \<and>
            z < z' \<and> z' < depth \<longrightarrow>
          (x, y, z') \<in> set (sample_positions args hmap ground_level width height depth))"
proof
  show "\<exists>z0. 0 \<le> z0 \<and>
            column_samples args hmap ground_level depth x y = map (\<lambda>z. (x, y, z)) [z0 .. depth - 1]"
    using column_samples_range [OF assms, of hmap ground_level depth x y]
    by (intro exI [of _ "max 0 \<lceil>(min_admissible args hmap x y - ground_level) / resolution args\<rceil>"]) simp
next
  show "(x, y, z) \<in> set (sample_positions args hmap ground_level width height depth) \<and>
            z < z' \<and> z' < depth \<longrightarrow>
          (x, y, z') \<in> set (sample_positions args hmap ground_level width height depth)"
  proof
    assume a: "(x, y, z) \<in> set (sample_positions args hmap ground_level width height depth) \<and>
            z < z' \<and> z' < depth"
    then have m: "min_admissible args hmap x y \<le> world_height args ground_level z"
      and r: "0 \<le> x" "x < width" "0 \<le> y" "y < height" "0 \<le> z"
      by (simp_all add: set_sample_positions)
    have "real_of_int z * resolution args \<le> real_of_int z' * resolution args"
      using a assms by (intro mult_right_mono) simp_all
    then have "world_height args ground_level z \<le> world_height args ground_level z'"
      by (simp add: world_height_def)
    with m have "min_admissible args hmap x y \<le> world_height args ground_level z'" by simp
    with a r show "(x, y, z') \<in> set (sample_positions args hmap ground_level width height depth)"
      by (simp add: set_sample_positions)
  qed
qed

text \<open>
  In the second column of the same height map, layer 2 is emitted, and so is layer 4.
\<close>

theorem emitted_layers_contiguous_witness:
  "0 < resolution default_arguments \<and>
   (1, 0, 2) \<in> set (sample_positions default_arguments step_map 0 2 1 5) \<and>
   (1, 0, 4) \<in> set (sample_positions default_arguments step_map 0 2 1 5) \<and>
   (\<exists>z0. 0 \<le> z0 \<and> column_samples default_arguments step_map 0 5 1 0 = map (\<lambda>z. (1, 0, z)) [z0 .. 5 - 1])"
proof -
  have r: "0 < resolution default_arguments" by (simp add: default_arguments_def)
  have m: "(1, 0, 2) \<in> set (sample_positions default_arguments step_map 0 2 1 5)"
    by (simp add: set_sample_positions min_admissible_def world_height_def
          default_arguments_def step_map_def image_at_def cell_index_def)
  from emitted_layers_contiguous [OF r, of step_map 0 5 1 0 2 2 1 4] r m show ?thesis
    by simp
qed

text \<open>
  Claim C5, as amended. For a height map that holds the same height \<open>v\<close> in every cell,
  minimum altitude 0 and a positive resolution: the ground level is \<open>v\<close>, the normalized
  map is 0, and a column emits \<open>depth - max(0, ceil(- v / resolution))\<close> voxels, clamped to
  non-negative. When \<open>v\<close> is not negative this is the claimed
  \<open>depth - floor((v - ground_level) / resolution)\<close>, that is all \<open>depth\<close> layers. No voxel whose
  world height is below \<open>max(v, min_altitude)\<close> is emitted.
\<close>

theorem flat_map_column_count:
  assumes "0 < resolution args" "min_altitude args = 0"
          "0 \<le> x" "x < w" "0 \<le> y" "y < h" "v \<noteq> lowest" "v \<le> float_max"
  shows "estimate_ground_level (flat_image w h v) = v \<and>
         int (length (column_samples args (normalize v (flat_image w h v)) v depth x y)) =
           max 0 (depth - max 0 \<lceil>- v / resolution args\<rceil>) \<and>
         (0 \<le> v \<longrightarrow>
            int (length (column_samples args (normalize v (flat_image w h v)) v depth x y)) =
              max 0 (depth - \<lfloor>(v - estimate_ground_level (flat_image w h v)) / resolution args\<rfloor>)) \<and>
         ((x, y, z) \<in> set (column_samples args (normalize v (flat_image w h v)) v depth x y) \<longrightarrow>
            max v (min_altitude args) \<le> world_height args v z)"
proof -
  have g: "estimate_ground_level (flat_image w h v) = v"
    using assms by (intro ground_level_flat) simp_all
  have wf: "wf_image w h (flat_image w h v)"
    unfolding flat_image_def by (rule wf_image_fresh)
  have "image_at (flat_image w h v) x y = v"
    unfolding flat_image_def using assms(3-6) by (rule image_at_fresh)
  then have "image_at (normalize v (flat_image w h v)) x y = 0"
    using image_at_normalize [OF wf assms(3-6), of v] assms(7) by simp
  then have m: "min_admissible args (normalize v (flat_image w h v)) x y = 0"
    by (simp add: min_admissible_def assms(2))
  have len: "int (length (column_samples args (normalize v (flat_image w h v)) v depth x y)) =
           max 0 (depth - max 0 \<lceil>- v / resolution args\<rceil>)"
    using length_column_samples [OF assms(1), of "normalize v (flat_image w h v)" v depth x y]
    by (simp add: m)
  have pos: "int (length (column_samples args (normalize v (flat_image w h v)) v depth x y)) =
              max 0 (depth - \<lfloor>(v - estimate_ground_level (flat_image w h v)) / resolution args\<rfloor>)"
    if "0 \<le> v"
  proof -
    have "- v / resolution args \<le> 0" using that assms(1) by (simp add: divide_nonpos_pos)
    then have "\<lceil>- v / resolution args\<rceil> \<le> 0" by (simp add: ceiling_le_iff)
    then show ?thesis by (simp add: len g)
  qed
  have low: "max v (min_altitude args) \<le> world_height args v z"
    if "(x, y, z) \<in> set (column_samples args (normalize v (flat_image w h v)) v depth x y)"
  proof -
    from that have "0 \<le> z" and "0 \<le> world_height args v z"
      by (simp_all add: set_column_samples m)
    moreover have "0 \<le> real_of_int z * resolution args"
      using \<open>0 \<le> z\<close> assms(1) by simp
    ultimately show ?thesis by (simp add: world_height_def assms(2))
  qed
  from g len pos low show ?thesis by blast
qed

text \<open>
  A flat map at height 5 with depth 11: every column emits its 11 layers.
\<close>

theorem flat_map_column_count_witness:
  "estimate_ground_level (flat_image 1 1 5) = 5 \<and>
   int (length (column_samples default_arguments (normalize 5 (flat_image 1 1 5)) 5 11 0 0)) = 11 \<and>
   (0, 0, 0) \<in> set (column_samples default_arguments (normalize 5 (flat_image 1 1 5)) 5 11 0 0) \<and>
   max 5 (min_altitude default_arguments) \<le> world_height default_arguments 5 0"
proof -
  have m: "(0, 0, 0) \<in> set (column_samples default_arguments (normalize 5 (flat_image 1 1 5)) 5 11 0 0)"
    by (simp add: set_column_samples min_admissible_def world_height_def default_arguments_def
          flat_image_def normalize_def image_fill_def image_create_def image_at_def cell_index_def
          lowest_def float_max_def)
  have "(5::real) \<noteq> lowest" "(5::real) \<le> float_max"
    by (simp_all add: lowest_def float_max_def)
  from flat_map_column_count [of default_arguments 0 1 0 1 5 11 0, OF _ _ _ _ _ _ this] m
  show ?thesis by (simp add: default_arguments_def)
qed

text \<open>
  A flat map at height -5, resolution 2 and maximum altitude 10: the depth is 6 and the
  ground level is -5, and a column emits the 3 layers whose world height is not
  negative. The claimed count is 6 (and it is 4 if the height is read as the normalized
  height 0 against the ground level -5).
\<close>

theorem flat_map_column_count_counterexample:
  "estimate_ground_level (flat_image 1 1 (- 5)) = - 5 \<and>
   grid_depth coarse_arguments = 6 \<and>
   min_altitude coarse_arguments = 0 \<and>
   length (column_samples coarse_arguments (normalize (- 5) (flat_image 1 1 (- 5))) (- 5) 6 0 0) = 3 \<and>
   max 0 (6 - \<lfloor>(- 5 - (- 5)) / resolution coarse_arguments\<rfloor>) = 6 \<and>
   max 0 (6 - \<lfloor>(0 - (- 5)) / resolution coarse_arguments\<rfloor>) = 4"
  by (simp add: estimate_ground_level_def flat_image_def normalize_def image_fill_def image_create_def
        grid_depth_def float_to_int_def coarse_arguments_def default_arguments_def
        column_samples_def min_admissible_def world_height_def image_at_def cell_index_def
        lowest_def float_max_def upto_rec1)

subsection \<open>The main function\<close>

lemma rasterize_wf:
  assumes "rasterize args bb w h verts im = Inr im'" "wf_image w h im"
  shows "wf_image w h im'"
  using assms
proof (induction verts arbitrary: im)
  case Nil
  then show ?case by simp
next
  case (Cons v verts)
  from Cons.prems(1) obtain im1 where
    s: "splat args bb w h v im = Inr im1" and r: "rasterize args bb w h verts im1 = Inr im'"
    by (auto split: sum.splits)
  from Cons.IH [OF r splat_wf [OF s Cons.prems(2)]] show ?case .
qed

lemma sampler_main_rejects:
  assumes "\<not> (valid (calculate_aabb verts) \<and> 0 < volume (calculate_aabb verts))"
  shows "sampler_main render args verts = ([], Inl AssertionFailed)"
  using assms by (simp add: sampler_main_def Let_def)

lemma sampler_main_allocs:
  assumes "valid (calculate_aabb verts) \<and> 0 < volume (calculate_aabb verts)"
  shows "fst (sampler_main render args verts) \<noteq> []"
  using assms by (simp add: sampler_main_def Let_def split: sum.splits)

lemma sampler_main_success:
  assumes "sampler_main render args verts = (allocs, Inr r)"
  defines "bb \<equiv> calculate_aabb verts"
  shows "valid bb" "0 < volume bb"
    "\<exists>hmap. rasterize args bb (grid_width args bb) (grid_height args bb) verts
              (image_fill lowest (image_create (grid_width args bb) (grid_height args bb))) = Inr hmap \<and>
            res_ground_level r = estimate_ground_level hmap \<and>
            res_hmap r = normalize (estimate_ground_level hmap) hmap"
    "res_samples r = sample_positions args (res_hmap r) (res_ground_level r)
                       (grid_width args bb) (grid_height args bb) (grid_depth args)"
    "res_volume r = fill_volume render (res_samples r)"
    "allocs = [HeightMapAlloc (grid_width args bb) (grid_height args bb),
               VolumeAlloc (grid_width args bb) (grid_height args bb) (grid_depth args)]"
  using assms(1) unfolding bb_def
  by (auto simp add: sampler_main_def Let_def split: if_splits sum.splits)

lemma sampler_main_runs:
  assumes "valid (calculate_aabb verts)" "0 < volume (calculate_aabb verts)" "0 < resolution args"
  shows "\<exists>r. sampler_main render args verts =
               ([HeightMapAlloc (grid_width args (calculate_aabb verts)) (grid_height args (calculate_aabb verts)),
                 VolumeAlloc (grid_width args (calculate_aabb verts)) (grid_height args (calculate_aabb verts)) (grid_depth args)],
                Inr r)"
proof -
  obtain hmap where "rasterize args (calculate_aabb verts) (grid_width args (calculate_aabb verts))
       (grid_height args (calculate_aabb verts)) verts
       (image_fill lowest (image_create (grid_width args (calculate_aabb verts)) (grid_height args (calculate_aabb verts)))) = Inr hmap"
    using rasterize_succeeds [OF assms(3) subset_refl] by blast
  then show ?thesis using assms(1,2)
    by (simp add: sampler_main_def Let_def)
qed

lemma calculate_aabb_slab:
  "calculate_aabb slab_mesh =
     \<lparr>aabb_min = \<lparr>c0 = 0, c1 = 0, c2 = 0\<rparr>, aabb_max = \<lparr>c0 = 5 / 2, c1 = 1, c2 = 1\<rparr>\<rparr>"
  by (simp add: calculate_aabb_def slab_mesh_def aabb_extend_def empty_aabb_def
                float_max_def lowest_def)

lemma calculate_aabb_plane:
  "calculate_aabb plane_mesh =
     \<lparr>aabb_min = \<lparr>c0 = 0, c1 = 0, c2 = 5\<rparr>, aabb_max = \<lparr>c0 = 10, c1 = 10, c2 = 5\<rparr>\<rparr>"
  by (simp add: calculate_aabb_def plane_mesh_def aabb_extend_def empty_aabb_def
                float_max_def lowest_def)

text \<open>
  Claim C6, as amended. Whenever the sampler gets past its assertions with a positive
  resolution, the height map it builds is \<open>floor((max - min) / resolution) + 1\<close> cells
  wide and high, where \<open>min\<close> and \<open>max\<close> are the corners of the bounding box of the mesh
  vertices, and its buffer has that many cells. The size is the floor of the quotient
  plus one, not the ceiling plus one: the two differ whenever the extent is not a
  multiple of the resolution.
\<close>

theorem height_map_dimensions:
  assumes "sampler_main render args verts = (allocs, Inr r)" "0 < resolution args"
  shows "img_width (res_hmap r) =
           \<lfloor>(c0 (aabb_max (calculate_aabb verts)) - c0 (aabb_min (calculate_aabb verts)))
              / resolution args\<rfloor> + 1 \<and>
         img_height (res_hmap r) =
           \<lfloor>(c1 (aabb_max (calculate_aabb verts)) - c1 (aabb_min (calculate_aabb verts)))
              / resolution args\<rfloor> + 1 \<and>
         int (length (img_data (res_hmap r))) = img_width (res_hmap r) * img_height (res_hmap r)"
proof -
  let ?bb = "calculate_aabb verts"
  note s = sampler_main_success [OF assms(1)]
  from s(3) obtain hmap where
    r: "rasterize args ?bb (grid_width args ?bb) (grid_height args ?bb) verts
          (image_fill lowest (image_create (grid_width args ?bb) (grid_height args ?bb))) = Inr hmap"
    and h: "res_hmap r = normalize (estimate_ground_level hmap) hmap"
    by blast
  have "wf_image (grid_width args ?bb) (grid_height args ?bb) (res_hmap r)"
    unfolding h by (intro wf_image_normalize rasterize_wf [OF r] wf_image_fresh)
  then have w: "img_width (res_hmap r) = grid_width args ?bb"
    "img_height (res_hmap r) = grid_height args ?bb"
    "length (img_data (res_hmap r)) = nat (grid_width args ?bb * grid_height args ?bb)"
    by (simp_all add: wf_image_def)
  from s(1) have v: "c0 (aabb_min ?bb) \<le> c0 (aabb_max ?bb)" "c1 (aabb_min ?bb) \<le> c1 (aabb_max ?bb)"
    by (simp_all add: valid_def)
  note gw = grid_width_floor [OF v(1) assms(2)] and gh = grid_height_floor [OF v(2) assms(2)]
  have "0 \<le> grid_width args ?bb" "0 \<le> grid_height args ?bb"
    using v assms(2) unfolding gw gh by simp_all
  then have "0 \<le> grid_width args ?bb * grid_height args ?bb" by simp
  then show ?thesis using w gw gh by simp
qed

text \<open>
  The slab from \<open>(0, 0, 0)\<close> to \<open>(5/2, 1, 1)\<close> at resolution 1 gives a height map of 3 by
  2 cells.
\<close>

theorem height_map_dimensions_witness:
  "\<exists>allocs r. sampler_main (\<lambda>_. ()) default_arguments slab_mesh = (allocs, Inr r) \<and>
      img_width (res_hmap r) = 3 \<and> img_height (res_hmap r) = 2 \<and>
      length (img_data (res_hmap r)) = 6"
proof -
  have "valid (calculate_aabb slab_mesh)" "0 < volume (calculate_aabb slab_mesh)"
    "0 < resolution default_arguments"
    by (simp_all add: calculate_aabb_slab valid_def volume_def default_arguments_def)
  from sampler_main_runs [OF this] obtain allocs r
    where run: "sampler_main (\<lambda>_. ()) default_arguments slab_mesh = (allocs, Inr r)" by blast
  from height_map_dimensions [OF run \<open>0 < resolution default_arguments\<close>]
  have "img_width (res_hmap r) = 3 \<and> img_height (res_hmap r) = 2 \<and> length (img_data (res_hmap r)) = 6"
    by (auto simp add: calculate_aabb_slab default_arguments_def)
  with run show ?thesis by blast
qed

text \<open>
  For the same slab the claimed width \<open>ceil(5/2) + 1\<close> is 4, and the program allocates a
  height map of width 3.
\<close>

theorem height_map_width_counterexample:
  "fst (sampler_main (\<lambda>_. ()) default_arguments slab_mesh) = [HeightMapAlloc 3 2, VolumeAlloc 3 2 101] \<and>
   \<lceil>(c0 (aabb_max (calculate_aabb slab_mesh)) - c0 (aabb_min (calculate_aabb slab_mesh)))
        / resolution default_arguments\<rceil> + 1 = 4"
proof -
  have "valid (calculate_aabb slab_mesh)" "0 < volume (calculate_aabb slab_mesh)"
    "0 < resolution default_arguments"
    by (simp_all add: calculate_aabb_slab valid_def volume_def default_arguments_def)
  from sampler_main_runs [OF this, of "\<lambda>_. ()"] show ?thesis
    apply (clarsimp simp add: calculate_aabb_slab )
    apply (simp add: default_arguments_def grid_width_def grid_height_def grid_depth_def float_to_int_def)
    done
qed

text \<open>
  Claim C9. When the bounding box of the mesh vertices is not valid or has no strictly
  positive volume, the sampler stops at its assertion with nothing allocated; and
  whenever it has allocated a grid (the height map or the volume), or has run to its
  end, the box is valid and its volume is strictly positive. The assertions are taken
  as compiled in.
\<close>

theorem degenerate_aabb_rejected:
  "(\<not> (valid (calculate_aabb verts) \<and> 0 < volume (calculate_aabb verts)) \<longrightarrow>
      sampler_main render args verts = ([], Inl AssertionFailed)) \<and>
   (fst (sampler_main render args verts) \<noteq> [] \<longrightarrow>
      valid (calculate_aabb verts) \<and> 0 < volume (calculate_aabb verts)) \<and>
   (\<not> isl (snd (sampler_main render args verts)) \<longrightarrow>
      valid (calculate_aabb verts) \<and> 0 < volume (calculate_aabb verts))"
  by (cases "valid (calculate_aabb verts) \<and> 0 < volume (calculate_aabb verts)")
     (simp_all add: sampler_main_rejects)

text \<open>
  A planar mesh at height 5 has a box of volume 0 and is rejected; the slab is accepted.
\<close>

theorem degenerate_aabb_rejected_witness:
  "\<not> (valid (calculate_aabb plane_mesh) \<and> 0 < volume (calculate_aabb plane_mesh)) \<and>
   sampler_main (\<lambda>_. ()) default_arguments plane_mesh = ([], Inl AssertionFailed) \<and>
   fst (sampler_main (\<lambda>_. ()) default_arguments slab_mesh) \<noteq> [] \<and>
   valid (calculate_aabb slab_mesh) \<and> 0 < volume (calculate_aabb slab_mesh)"
proof -
  have d: "\<not> (valid (calculate_aabb plane_mesh) \<and> 0 < volume (calculate_aabb plane_mesh))"
    by (simp add: calculate_aabb_plane volume_def)
  have "valid (calculate_aabb slab_mesh) \<and> 0 < volume (calculate_aabb slab_mesh)"
    by (simp add: calculate_aabb_slab valid_def volume_def)
  then have a: "fst (sampler_main (\<lambda>_. ()) default_arguments slab_mesh) \<noteq> []"
    by (rule sampler_main_allocs)
  from d a degenerate_aabb_rejected [of plane_mesh "\<lambda>_. ()" default_arguments]
    degenerate_aabb_rejected [of slab_mesh "\<lambda>_. ()" default_arguments]
  show ?thesis by blast
qed

section \<open>Properties of the trajectory evaluation\<close>

subsection \<open>The row store\<close>


lemma cell_no_wrap:
  assumes "layout n dh" "r < max_rows dh"
  shows "cell dh r i = r * stride dh + i"
proof -
  have "r * stride dh \<le> max_rows dh * stride dh"
    using assms(2) by (simp add: mult_le_mono1)
  moreover have "max_rows dh * stride dh < 2 ^ 32"
    using assms(1) by (simp add: layout_def)
  ultimately have "r * stride dh < 2 ^ 32" by (rule le_less_trans)
  then show ?thesis by (simp add: cell_def)
qed

lemma cell_in_buffer:
  assumes "layout n dh" "r < max_rows dh" "i < n"
  shows "r * stride dh + i < length (data_ptr dh)"
proof -
  have "i < stride dh" using assms by (simp add: layout_def)
  then have "r * stride dh + i < (r + 1) * stride dh" by simp
  also have "\<dots> \<le> max_rows dh * stride dh"
    using assms(2) by (intro mult_le_mono1) simp
  finally show ?thesis using assms(1) by (simp add: layout_def)
qed

lemma append_row_full:
  assumes "max_rows dh \<le> num_rows_ptr dh ! i"
  shows "append_row dh i d = Inr dh"
  using assms by (simp add: append_row_def Let_def)

lemma append_row_room:
  assumes "layout n dh" "i < n" "num_rows_ptr dh ! i < max_rows dh"
  shows "append_row dh i d =
           Inr (dh\<lparr>data_ptr := (data_ptr dh)[num_rows_ptr dh ! i * stride dh + i := d],
                   num_rows_ptr := (num_rows_ptr dh)[i := num_rows_ptr dh ! i + 1]\<rparr>)"
proof -
  let ?row = "num_rows_ptr dh ! i"
  have c: "cell dh ?row i = ?row * stride dh + i"
    using assms(1,3) by (rule cell_no_wrap)
  have b: "?row * stride dh + i < length (data_ptr dh)"
    using assms(1,3,2) by (rule cell_in_buffer)
  show ?thesis
    unfolding append_row_def Let_def using assms(3) b
    by (simp add: c)
qed


lemma layout_update:
  assumes "layout n dh"
  shows "layout n (dh\<lparr>data_ptr := (data_ptr dh)[k := d], num_rows_ptr := (num_rows_ptr dh)[i := c]\<rparr>)"
  using assms by (simp add: layout_def stride_def)

lemma within_capacity_update:
  assumes "within_capacity dh" "c \<le> max_rows dh"
  shows "within_capacity (dh\<lparr>data_ptr := ds, num_rows_ptr := (num_rows_ptr dh)[i := c]\<rparr>)"
  using assms by (auto simp: within_capacity_def list_all_iff dest: set_update_subset_insert [THEN subsetD])

lemma append_row_invariant:
  assumes "layout n dh" "within_capacity dh" "i < n"
  shows "\<exists>dh'. append_row dh i d = Inr dh' \<and> layout n dh' \<and> within_capacity dh' \<and>
               max_rows dh' = max_rows dh"
proof (cases "num_rows_ptr dh ! i < max_rows dh")
  case True
  show ?thesis
    unfolding append_row_room [OF assms(1,3) True]
    using layout_update [OF assms(1)] within_capacity_update [OF assms(2)] True
    by simp
next
  case False
  then show ?thesis using assms by (simp add: append_row_full)
qed





lemma full_store_layout: "layout 1 full_store" "within_capacity full_store"
  by (simp_all add: full_store_def layout_def within_capacity_def create_def stride_def
        max_cameras_def)

subsection \<open>The kernel and the loop over the cameras\<close>



lemma populate_point_invariant:
  assumes "layout (length cloud) dh" "within_capacity dh" "i < length cloud"
  shows "\<exists>dh'. populate_point parts w2c calib view_pos width height bvh_tree cloud i dh = Inr dh' \<and>
               layout (length cloud) dh' \<and> within_capacity dh' \<and> max_rows dh' = max_rows dh"
  using append_row_invariant [OF assms] assms(1,2)
  by (simp add: populate_point_def Let_def split: verdict.splits)

lemma run_invariant:
  assumes "\<And>a s. a \<in> set as \<Longrightarrow> P s \<Longrightarrow> \<exists>s'. body a s = Inr s' \<and> P s'" "P s"
  shows "\<exists>s'. run body as s = Inr s' \<and> P s'"
  using assms
proof (induction as arbitrary: s)
  case Nil
  then show ?case by simp
next
  case (Cons a as)
  from Cons.prems(1) [of a s] Cons.prems(2) obtain s1 where s1: "body a s = Inr s1" "P s1"
    by auto
  from Cons.IH [of s1] Cons.prems(1) s1(2) obtain s' where "run body as s1 = Inr s'" "P s'"
    by auto
  with s1 show ?case by simp
qed

lemma populate_histogram_invariant:
  assumes "layout (length cloud) dh" "within_capacity dh"
  shows "\<exists>dh'. populate_histogram parts w2c calib view_pos width height bvh_tree cloud dh = Inr dh' \<and>
               layout (length cloud) dh' \<and> within_capacity dh' \<and> max_rows dh' = max_rows dh"
proof -
  let ?P = "\<lambda>s. layout (length cloud) s \<and> within_capacity s \<and> max_rows s = max_rows dh"
  have "\<exists>s'. run (populate_point parts w2c calib view_pos width height bvh_tree cloud)
               [0 ..< length cloud] dh = Inr s' \<and> ?P s'"
  proof (rule run_invariant [where P = ?P])
    fix a s assume "a \<in> set [0 ..< length cloud]" "?P s"
    then show "\<exists>s'. populate_point parts w2c calib view_pos width height bvh_tree cloud a s = Inr s' \<and> ?P s'"
      using populate_point_invariant [of cloud s a parts w2c calib view_pos width height bvh_tree]
      by auto
  next
    show "?P dh" using assms by simp
  qed
  then show ?thesis by (simp add: populate_histogram_def)
qed

lemma accumulate_invariant:
  assumes "layout (length cloud) dh" "within_capacity dh"
  shows "\<exists>dh'. accumulate parts bvh_tree cloud trajectory dh = Inr dh' \<and>
               layout (length cloud) dh' \<and> within_capacity dh' \<and> max_rows dh' = max_rows dh"
proof -
  let ?P = "\<lambda>s. layout (length cloud) s \<and> within_capacity s \<and> max_rows s = max_rows dh"
  have "\<exists>s'. run (\<lambda>cam. populate_histogram parts (cam_w2c cam) (cam_calib cam) (cam_pos cam) 1920 1080
                           bvh_tree cloud) trajectory dh = Inr s' \<and> ?P s'"
  proof (rule run_invariant [where P = ?P])
    fix a s assume "a \<in> set trajectory" "?P s"
    then show "\<exists>s'. populate_histogram parts (cam_w2c a) (cam_calib a) (cam_pos a) 1920 1080
                       bvh_tree cloud s = Inr s' \<and> ?P s'"
      using populate_histogram_invariant
              [of cloud s parts "cam_w2c a" "cam_calib a" "cam_pos a" 1920 1080 bvh_tree]
      by auto
  next
    show "?P dh" using assms by simp
  qed
  then show ?thesis by (simp add: accumulate_def)
qed



subsection \<open>The example camera\<close>







subsection \<open>The claims on the row store and on visibility\<close>

text \<open>
  Claim C1. From a store in which no point has more than \<open>max_rows\<close> rows, the
  accumulation over any trajectory runs without error and ends in a store of the same
  capacity in which no point has more than \<open>max_rows\<close> rows. When the store of a point
  is full, an observation of that point leaves the whole store as it is: the row
  counts and the rows of this point and of all others are unchanged, and there is no
  error.
\<close>

theorem row_store_bounded:
  assumes "layout (length cloud) dir_hist" "within_capacity dir_hist"
  shows "(\<exists>dir_hist'. accumulate parts bvh_tree cloud trajectory dir_hist = Inr dir_hist' \<and>
            max_rows dir_hist' = max_rows dir_hist \<and>
            (\<forall>j<length cloud. num_rows_ptr dir_hist' ! j \<le> max_rows dir_hist)) \<and>
         (i < length cloud \<and> num_rows_ptr dir_hist ! i = max_rows dir_hist \<longrightarrow>
            populate_point parts w2c calib view_pos width height bvh_tree cloud i dir_hist
              = Inr dir_hist)"
proof
  from accumulate_invariant [OF assms, of parts bvh_tree trajectory] obtain dh' where
    p: "accumulate parts bvh_tree cloud trajectory dir_hist = Inr dh'"
    and l: "layout (length cloud) dh'" and w: "within_capacity dh'"
    and m: "max_rows dh' = max_rows dir_hist"
    by blast
  have "num_rows_ptr dh' ! j \<le> max_rows dir_hist" if "j < length cloud" for j
    using l w m that by (simp add: layout_def within_capacity_def list_all_length)
  with p m show "\<exists>dir_hist'. accumulate parts bvh_tree cloud trajectory dir_hist = Inr dir_hist' \<and>
            max_rows dir_hist' = max_rows dir_hist \<and>
            (\<forall>j<length cloud. num_rows_ptr dir_hist' ! j \<le> max_rows dir_hist)"
    by blast
next
  show "i < length cloud \<and> num_rows_ptr dir_hist ! i = max_rows dir_hist \<longrightarrow>
            populate_point parts w2c calib view_pos width height bvh_tree cloud i dir_hist
              = Inr dir_hist"
    by (simp add: populate_point_def Let_def append_row_full split: verdict.splits)
qed


text \<open>
  A store of capacity 20 that is full for its one point: a further visible camera
  changes nothing, and 21 of them leave at most 20 rows.
\<close>

theorem row_store_bounded_witness:
  "layout (length [ground_point]) full_store \<and> within_capacity full_store \<and>
   num_rows_ptr full_store ! 0 = max_rows full_store \<and>
   max_rows full_store = 20 \<and>
   populate_point example_parts (cam_w2c nadir_camera) (cam_calib nadir_camera) (cam_pos nadir_camera)
     1920 1080 empty_mesh [ground_point] 0 full_store = Inr full_store \<and>
   (\<exists>dir_hist'. accumulate example_parts empty_mesh [ground_point] (replicate 21 nadir_camera)
                   full_store = Inr dir_hist' \<and>
       num_rows_ptr dir_hist' ! 0 \<le> 20)"
proof -
  have l: "layout (length [ground_point]) full_store" and w: "within_capacity full_store"
    using full_store_layout by simp_all
  have f: "num_rows_ptr full_store ! 0 = max_rows full_store" "max_rows full_store = 20"
    by (simp_all add: full_store_def create_def max_cameras_def)
  from row_store_bounded [OF l w, of example_parts empty_mesh "replicate 21 nadir_camera" 0
         "cam_w2c nadir_camera" "cam_calib nadir_camera" "cam_pos nadir_camera" 1920 1080] l w f
  show ?thesis by auto
qed






subsection \<open>Export\<close>

lemma export_value_spec:
  assumes "layout n dir_hist" "max_rows dir_hist = max_cameras"
  shows "export_value dir_hist i = spec_quality dir_hist i"
proof -
  have "cell dir_hist 18 i = 18 * stride dir_hist + i" "cell dir_hist 19 i = 19 * stride dir_hist + i"
    using cell_no_wrap [OF assms(1), of 18 i] cell_no_wrap [OF assms(1), of 19 i] assms(2)
    by (simp_all add: max_cameras_def)
  moreover have "max 0 (min l (1 / 10)) = clamp l 0 (1 / 10)" for l :: real
    by (simp add: clamp_def max_def min_def)
  moreover have "max \<bar>fst e\<bar> \<bar>snd e\<bar> = largest_magnitude e" for e :: vec2
    by (simp add: largest_magnitude_def max_def)
  ultimately show ?thesis
    by (simp add: export_value_def spec_quality_def row_of_def Let_def assms(2) max_cameras_def)
qed

text \<open>
  Claim C8. When an export path is given, for a store of \<open>max_cameras\<close> rows, the
  program computes one value per point, and the value of a point is the first
  component of its second-to-last row (the mean direction) times
  \<open>10 * clamp(lambda, 0, 1/10)\<close>, where \<open>lambda\<close> is the component of largest magnitude
  of its last row (the eigen estimate).
\<close>

theorem export_value_formula:
  assumes "layout n dir_hist" "max_rows dir_hist = max_cameras" "export_cloud \<noteq> []"
  shows "\<exists>vs. export_values export_cloud dir_hist n = Some vs \<and> length vs = n \<and>
           (\<forall>i<n. vs ! i =
              fst (row_of dir_hist (max_rows dir_hist - 2) i) *
                (10 * clamp (largest_magnitude (row_of dir_hist (max_rows dir_hist - 1) i))
                        0 (1 / 10)))"
  using assms(3) export_value_spec [OF assms(1,2)]
  by (simp add: export_values_def spec_quality_def)

text \<open>
  A reduced store with the mean \<open>(1/2, 0)\<close> and the eigen row \<open>(-1/4, 1/20)\<close>: the value
  is \<open>1/2 * (10 * 1/10)\<close>.
\<close>

theorem export_value_formula_witness:
  "layout 1 reduced_store \<and> max_rows reduced_store = max_cameras \<and>
   spec_quality reduced_store 0 = 1 / 2 \<and>
   export_values ''out.ply'' reduced_store 1 = Some [1 / 2]"
proof -
  have l: "layout 1 reduced_store" and m: "max_rows reduced_store = max_cameras"
    by (simp_all add: reduced_store_def layout_def create_def stride_def max_cameras_def)
  have q: "spec_quality reduced_store 0 = 1 / 2"
    by (simp add: spec_quality_def reduced_store_def create_def row_of_def stride_def
          max_cameras_def nth_append largest_magnitude_def clamp_def)
  from export_value_formula [OF l m, of "''out.ply''"] obtain vs where
    v: "export_values ''out.ply'' reduced_store 1 = Some vs" "length vs = 1"
       "\<forall>i<1. vs ! i = spec_quality reduced_store i"
    by (auto simp: spec_quality_def)
  from v(2,3) q have "vs = [1 / 2]" by (cases vs) auto
  with v(1) l m q show ?thesis by simp
qed

end
